theory Spec2Isabelle
  imports Complex_Main
begin

section \<open>Order-book reconciliation (binance.py)\<close>

text \<open>
  The embedding follows \<^verbatim>\<open>src/binance.py\<close>. Python \<^verbatim>\<open>float\<close> values are modelled as
  real numbers: the finite floats with their order, where \<^verbatim>\<open>-0.0 == 0.0\<close>. NaN and
  rounding are outside the model. Python \<^verbatim>\<open>int\<close> is \<^typ>\<open>int\<close>. Exceptions are values
  of the type \<open>error\<close>; a function that can raise returns \<open>error + 'a\<close>.
\<close>

subsection \<open>Errors and wire values\<close>

datatype error =
    TypeError
  | KeyError
  | IndexError
  | ValueError
  | RuntimeWarning int int  \<comment> \<open>received \<open>first_update_id\<close>, expected id\<close>

text \<open>The values \<^verbatim>\<open>json.loads\<close> produces, and tuples as one more non-dict, non-list shape.\<close>

datatype pyobj =
    PyNone
  | PyBool bool
  | PyInt int
  | PyFloat real
  | PyStr string
  | PyList "pyobj list"
  | PyTuple "pyobj list"
  | PyDict "(string \<times> pyobj) list"

definition bind_err :: "error + 'a \<Rightarrow> ('a \<Rightarrow> error + 'b) \<Rightarrow> error + 'b" where
  "bind_err r f = (case r of Inl e \<Rightarrow> Inl e | Inr x \<Rightarrow> f x)"

text \<open>
  The builtin \<^verbatim>\<open>float(x)\<close>. How a string is parsed is left as the parameter \<open>sf\<close>
  (\<open>None\<close>: the string is not a number, \<^verbatim>\<open>ValueError\<close>).
\<close>

fun py_float :: "(string \<Rightarrow> real option) \<Rightarrow> pyobj \<Rightarrow> error + real" where
  "py_float sf (PyFloat r) = Inr r"
| "py_float sf (PyInt i) = Inr (of_int i)"
| "py_float sf (PyBool b) = Inr (if b then 1 else 0)"
| "py_float sf (PyStr s) = (case sf s of None \<Rightarrow> Inl ValueError | Some r \<Rightarrow> Inr r)"
| "py_float sf PyNone = Inl TypeError"
| "py_float sf (PyList xs) = Inl TypeError"
| "py_float sf (PyTuple xs) = Inl TypeError"
| "py_float sf (PyDict d) = Inl TypeError"

text \<open>\<^verbatim>\<open>obj[key]\<close> on a dict and \<^verbatim>\<open>obj[i]\<close> on a list, for the constant indices the code uses.\<close>

definition dict_getitem :: "(string \<times> pyobj) list \<Rightarrow> string \<Rightarrow> error + pyobj" where
  "dict_getitem d k = (case map_of d k of None \<Rightarrow> Inl KeyError | Some v \<Rightarrow> Inr v)"

definition list_getitem :: "pyobj list \<Rightarrow> nat \<Rightarrow> error + pyobj" where
  "list_getitem xs i = (if i < length xs then Inr (xs ! i) else Inl IndexError)"

subsection \<open>PriceLevel\<close>

record PriceLevel =
  price :: real
  quantity :: real

definition from_object :: "(string \<Rightarrow> real option) \<Rightarrow> pyobj \<Rightarrow> error + PriceLevel" where
  "from_object sf obj =
     (case obj of
        PyDict d \<Rightarrow>
          bind_err (dict_getitem d ''price'') (\<lambda>po.
          bind_err (py_float sf po) (\<lambda>p.
          bind_err (dict_getitem d ''qty'') (\<lambda>qo.
          bind_err (py_float sf qo) (\<lambda>q.
          Inr \<lparr>price = p, quantity = q\<rparr>))))
      | PyList xs \<Rightarrow>
          bind_err (list_getitem xs 0) (\<lambda>po.
          bind_err (py_float sf po) (\<lambda>p.
          bind_err (list_getitem xs 1) (\<lambda>qo.
          bind_err (py_float sf qo) (\<lambda>q.
          Inr \<lparr>price = p, quantity = q\<rparr>))))
      | _ \<Rightarrow> Inl TypeError)"

subsection \<open>The sorted dictionary\<close>

text \<open>
  \<^verbatim>\<open>SortedDict\<close> of the sortedcontainers package: a dict together with the sorted list of
  its keys. It is modelled as the list of its items in ascending key order. The
  operations below are the ones \<^verbatim>\<open>Levels\<close> calls.
\<close>

type_synonym 'v SortedDict = "(real \<times> 'v) list"

text \<open>\<^verbatim>\<open>d[k] = v\<close>: replace the value of a resident key, or insert the key at its place.\<close>

fun sd_setitem :: "real \<Rightarrow> 'v \<Rightarrow> 'v SortedDict \<Rightarrow> 'v SortedDict" where
  "sd_setitem k v [] = [(k, v)]"
| "sd_setitem k v ((k', v') # d) =
     (if k < k' then (k, v) # (k', v') # d
      else if k = k' then (k', v) # d
      else (k', v') # sd_setitem k v d)"

text \<open>\<^verbatim>\<open>d.pop(k, None)\<close>: remove the key when it is resident, nothing otherwise.\<close>

definition sd_pop :: "real \<Rightarrow> 'v SortedDict \<Rightarrow> 'v SortedDict" where
  "sd_pop k d = filter (\<lambda>kv. fst kv \<noteq> k) d"

text \<open>\<^verbatim>\<open>d[k]\<close>: \<^verbatim>\<open>KeyError\<close> for a key that is not resident.\<close>

definition sd_getitem :: "'v SortedDict \<Rightarrow> real \<Rightarrow> error + 'v" where
  "sd_getitem d k = (case map_of d k of None \<Rightarrow> Inl KeyError | Some v \<Rightarrow> Inr v)"

text \<open>
  \<^verbatim>\<open>d.peekitem(index)\<close>: the key at a position of the sorted key list, with Python's
  negative indices, and the value stored under it; \<^verbatim>\<open>IndexError\<close> out of range.
\<close>

definition sd_peekitem :: "'v SortedDict \<Rightarrow> int \<Rightarrow> error + (real \<times> 'v)" where
  "sd_peekitem d index =
     (let n = int (length d);
          j = (if index < 0 then n + index else index)
      in if 0 \<le> j \<and> j < n
         then (let k = fst (d ! nat j) in bind_err (sd_getitem d k) (\<lambda>v. Inr (k, v)))
         else Inl IndexError)"

text \<open>One bound of \<^verbatim>\<open>slice(start, stop).indices(n)\<close>, the step being 1.\<close>

definition slice_bound :: "nat \<Rightarrow> int option \<Rightarrow> nat \<Rightarrow> nat" where
  "slice_bound n b dflt =
     (case b of
        None \<Rightarrow> dflt
      | Some j \<Rightarrow> if j < 0 then nat (max (int n + j) 0) else nat (min j (int n)))"

text \<open>\<^verbatim>\<open>d.islice(start, stop, reverse)\<close>: the keys at the positions of the slice.\<close>

definition sd_islice :: "'v SortedDict \<Rightarrow> int option \<Rightarrow> int option \<Rightarrow> bool \<Rightarrow> real list" where
  "sd_islice d start stop reverse =
     (let n = length d;
          lo = slice_bound n start 0;
          hi = slice_bound n stop n;
          ks = (if hi \<le> lo then [] else take (hi - lo) (drop lo (map fst d)))
      in if reverse then rev ks else ks)"

subsection \<open>Levels\<close>

type_synonym Levels = "PriceLevel SortedDict"

definition Levels_init :: Levels where
  "Levels_init = []"

fun merge :: "Levels \<Rightarrow> PriceLevel list \<Rightarrow> Levels" where
  "merge L [] = L"
| "merge L (level # levels) =
     merge (if quantity level = 0 then sd_pop (price level) L
            else sd_setitem (price level) level L) levels"

definition Levels_max :: "Levels \<Rightarrow> int \<Rightarrow> error + PriceLevel" where
  "Levels_max L i = bind_err (sd_peekitem L (- i)) (\<lambda>kv. Inr (snd kv))"

definition Levels_min :: "Levels \<Rightarrow> int \<Rightarrow> error + PriceLevel" where
  "Levels_min L i = bind_err (sd_peekitem L (i - 1)) (\<lambda>kv. Inr (snd kv))"

text \<open>
  The generator \<^verbatim>\<open>(self.levels[p] for p in ...)\<close>, read to its end: the list of the values,
  or the first error of a lookup.
\<close>

fun lookup_each :: "Levels \<Rightarrow> real list \<Rightarrow> error + PriceLevel list" where
  "lookup_each L [] = Inr []"
| "lookup_each L (p # ps) =
     bind_err (sd_getitem L p) (\<lambda>v. bind_err (lookup_each L ps) (\<lambda>vs. Inr (v # vs)))"

definition max_slice :: "Levels \<Rightarrow> int \<Rightarrow> bool \<Rightarrow> error + PriceLevel list" where
  "max_slice L i reverse = lookup_each L (sd_islice L (Some (- i)) None reverse)"

definition min_slice :: "Levels \<Rightarrow> int \<Rightarrow> bool \<Rightarrow> error + PriceLevel list" where
  "min_slice L i reverse = lookup_each L (sd_islice L None (Some i) reverse)"

definition Levels_len :: "Levels \<Rightarrow> nat" where
  "Levels_len L = length L"

subsection \<open>Snapshot, PartialUpdate and the order book\<close>

record Snapshot =
  snap_bids :: "PriceLevel list"
  snap_asks :: "PriceLevel list"
  snap_last_update_id :: int

record PartialUpdate =
  upd_bids :: "PriceLevel list"
  upd_asks :: "PriceLevel list"
  first_update_id :: int
  upd_last_update_id :: int

record BinanceOrderBook =
  bids :: Levels
  asks :: Levels
  last_update_id :: int

definition BinanceOrderBook_init :: "Snapshot \<Rightarrow> BinanceOrderBook" where
  "BinanceOrderBook_init snapshot =
     \<lparr>bids = merge Levels_init (snap_bids snapshot),
      asks = merge Levels_init (snap_asks snapshot),
      last_update_id = snap_last_update_id snapshot\<rparr>"

text \<open>
  \<^verbatim>\<open>update\<close> returns what the call returns or raises, and the book after the call:
  \<open>Inr True\<close> is applied, \<open>Inr False\<close> is skipped, \<open>Inl (RuntimeWarning r e)\<close> is the gap.
\<close>

definition update :: "BinanceOrderBook \<Rightarrow> PartialUpdate \<Rightarrow> (error + bool) \<times> BinanceOrderBook" where
  "update self u =
     (if upd_last_update_id u < last_update_id self then (Inr False, self)
      else if first_update_id u > last_update_id self + 1
        then (Inl (RuntimeWarning (first_update_id u) (last_update_id self + 1)), self)
      else (Inr True,
            \<lparr>bids = merge (bids self) (upd_bids u),
             asks = merge (asks self) (upd_asks u),
             last_update_id = upd_last_update_id u\<rparr>))"

definition best_bid :: "BinanceOrderBook \<Rightarrow> int \<Rightarrow> error + PriceLevel" where
  "best_bid self i = Levels_max (bids self) i"

definition best_bids :: "BinanceOrderBook \<Rightarrow> int \<Rightarrow> error + PriceLevel list" where
  "best_bids self n = max_slice (bids self) n True"

definition best_ask :: "BinanceOrderBook \<Rightarrow> int \<Rightarrow> error + PriceLevel" where
  "best_ask self i = Levels_min (asks self) i"

definition best_asks :: "BinanceOrderBook \<Rightarrow> int \<Rightarrow> error + PriceLevel list" where
  "best_asks self n = min_slice (asks self) n False"

subsection \<open>Histories\<close>

text \<open>
  A \<^verbatim>\<open>Levels\<close> object starts empty and changes only through \<open>merge\<close>; a book is built from
  a snapshot and changes only through \<open>update\<close>. The states the program can reach are the
  results of these histories.
\<close>

definition merge_all :: "PriceLevel list list \<Rightarrow> Levels" where
  "merge_all batches = foldl merge Levels_init batches"

definition update_all :: "BinanceOrderBook \<Rightarrow> PartialUpdate list \<Rightarrow> BinanceOrderBook" where
  "update_all book us = foldl (\<lambda>b u. snd (update b u)) book us"

definition book_after :: "Snapshot \<Rightarrow> PartialUpdate list \<Rightarrow> BinanceOrderBook" where
  "book_after snapshot us = update_all (BinanceOrderBook_init snapshot) us"

text \<open>
  The \<open>last_update_id\<close>s of the updates of a history that were applied, in the order of
  their application.
\<close>

fun applied_ids :: "BinanceOrderBook \<Rightarrow> PartialUpdate list \<Rightarrow> int list" where
  "applied_ids b [] = []"
| "applied_ids b (u # us) =
     (if fst (update b u) = Inr True then [upd_last_update_id u] else [])
       @ applied_ids (snd (update b u)) us"

text \<open>The representation invariant of a \<^verbatim>\<open>Levels\<close> object.\<close>

definition levels_ok :: "Levels \<Rightarrow> bool" where
  "levels_ok L \<longleftrightarrow>
     sorted_wrt (<) (map fst L) \<and>
     list_all (\<lambda>kv. price (snd kv) = fst kv \<and> quantity (snd kv) \<noteq> 0) L"




section \<open>The update state machine\<close>

lemma update_cases:
  "update b u = (Inr False, b) \<and> upd_last_update_id u < last_update_id b
   \<or> update b u = (Inl (RuntimeWarning (first_update_id u) (last_update_id b + 1)), b)
       \<and> last_update_id b \<le> upd_last_update_id u \<and> last_update_id b + 1 < first_update_id u
   \<or> update b u = (Inr True, \<lparr>bids = merge (bids b) (upd_bids u),
             asks = merge (asks b) (upd_asks u),
             last_update_id = upd_last_update_id u\<rparr>)
       \<and> last_update_id b \<le> upd_last_update_id u \<and> first_update_id u \<le> last_update_id b + 1"
  by (simp add: update_def)



lemma update_last_mono: "last_update_id b \<le> last_update_id (snd (update b u))"
  using update_cases [of b u] by auto

lemma update_all_Cons: "update_all b (u # us) = update_all (snd (update b u)) us"
  by (simp add: update_all_def)

lemma update_all_mono: "last_update_id b \<le> last_update_id (update_all b us)"
proof (induction us arbitrary: b)
  case Nil
  show ?case by (simp add: update_all_def)
next
  case (Cons u us)
  have "last_update_id b \<le> last_update_id (snd (update b u))"
    by (rule update_last_mono)
  also have "\<dots> \<le> last_update_id (update_all (snd (update b u)) us)"
    by (rule Cons.IH)
  finally show ?case by (simp add: update_all_Cons)
qed

lemma update_all_last_applied:
  "last_update_id (update_all b us) = last (last_update_id b # applied_ids b us)"
proof (induction us arbitrary: b)
  case Nil
  show ?case by (simp add: update_all_def)
next
  case (Cons u us)
  show ?case
    using update_cases [of b u] by (auto simp: update_all_Cons Cons.IH)
qed

lemma applied_ids_sorted: "sorted (last_update_id b # applied_ids b us)"
proof (induction us arbitrary: b)
  case Nil
  show ?case by simp
next
  case (Cons u us)
  show ?case
    using update_cases [of b u] Cons.IH [of "snd (update b u)"] by auto
qed

text \<open>
  Claim C2. Right after construction the book's \<open>last_update_id\<close> is the snapshot's; after
  an \<open>update\<close> that returns applied it is that update's \<open>last_update_id\<close>; no call of
  \<open>update\<close>, whatever it returns or raises, and no sequence of calls lowers it. Over a
  whole history it is the id of the most recently applied snapshot or update, and the ids
  applied along the history never decrease.
\<close>

theorem last_update_id_invariant:
  "last_update_id (BinanceOrderBook_init s) = snap_last_update_id s \<and>
   (fst (update b u) = Inr True \<longrightarrow> last_update_id (snd (update b u)) = upd_last_update_id u) \<and>
   last_update_id b \<le> last_update_id (snd (update b u)) \<and>
   last_update_id b \<le> last_update_id (update_all b us) \<and>
   last_update_id (book_after s us) =
     last (snap_last_update_id s # applied_ids (BinanceOrderBook_init s) us) \<and>
   sorted (snap_last_update_id s # applied_ids (BinanceOrderBook_init s) us)"
proof -
  have a: "last_update_id (BinanceOrderBook_init s) = snap_last_update_id s"
    by (simp add: BinanceOrderBook_init_def)
  have b: "fst (update b u) = Inr True \<longrightarrow> last_update_id (snd (update b u)) = upd_last_update_id u"
    using update_cases [of b u] by auto
  have c: "last_update_id (book_after s us) =
     last (snap_last_update_id s # applied_ids (BinanceOrderBook_init s) us)"
    using update_all_last_applied [of "BinanceOrderBook_init s" us] by (simp add: book_after_def a)
  have d: "sorted (snap_last_update_id s # applied_ids (BinanceOrderBook_init s) us)"
    using applied_ids_sorted [of "BinanceOrderBook_init s" us] by (simp only: a)
  show ?thesis
    using a b c d update_last_mono [of b u] update_all_mono [of b us] by blast
qed

theorem last_update_id_invariant_witness:
  "fst (update \<lparr>bids = [], asks = [], last_update_id = 100\<rparr>
      \<lparr>upd_bids = [], upd_asks = [], first_update_id = 101, upd_last_update_id = 105\<rparr>) = Inr True \<and>
   last_update_id (snd (update \<lparr>bids = [], asks = [], last_update_id = 100\<rparr>
      \<lparr>upd_bids = [], upd_asks = [], first_update_id = 101, upd_last_update_id = 105\<rparr>)) = 105 \<and>
   last_update_id (book_after \<lparr>snap_bids = [], snap_asks = [], snap_last_update_id = 100\<rparr>
      [\<lparr>upd_bids = [], upd_asks = [], first_update_id = 90, upd_last_update_id = 99\<rparr>,
       \<lparr>upd_bids = [], upd_asks = [], first_update_id = 101, upd_last_update_id = 105\<rparr>,
       \<lparr>upd_bids = [], upd_asks = [], first_update_id = 107, upd_last_update_id = 110\<rparr>]) = 105"
  using
    last_update_id_invariant [of
      "\<lparr>snap_bids = [], snap_asks = [], snap_last_update_id = 100\<rparr>"
      "\<lparr>bids = [], asks = [], last_update_id = 100\<rparr>"
      "\<lparr>upd_bids = [], upd_asks = [], first_update_id = 101, upd_last_update_id = 105\<rparr>"
      "[\<lparr>upd_bids = [], upd_asks = [], first_update_id = 90, upd_last_update_id = 99\<rparr>,
        \<lparr>upd_bids = [], upd_asks = [], first_update_id = 101, upd_last_update_id = 105\<rparr>,
        \<lparr>upd_bids = [], upd_asks = [], first_update_id = 107, upd_last_update_id = 110\<rparr>]"]
  by (simp add: update_def BinanceOrderBook_init_def Levels_init_def)

text \<open>
  Claim C3. When \<open>update\<close> returns skipped or raises the gap warning, the book after the
  call (bids, asks and \<open>last_update_id\<close>) is the book before the call.
\<close>

theorem update_no_mutation:
  "fst (update b u) = Inr False \<or> (\<exists>e. fst (update b u) = Inl e) \<Longrightarrow> snd (update b u) = b"
  using update_cases [of b u] by auto

theorem update_no_mutation_witness:
  "fst (update \<lparr>bids = [(1, \<lparr>price = 1, quantity = 2\<rparr>)], asks = [], last_update_id = 100\<rparr>
      \<lparr>upd_bids = [\<lparr>price = 1, quantity = 0\<rparr>], upd_asks = [],
       first_update_id = 107, upd_last_update_id = 110\<rparr>) = Inl (RuntimeWarning 107 101) \<and>
   snd (update \<lparr>bids = [(1, \<lparr>price = 1, quantity = 2\<rparr>)], asks = [], last_update_id = 100\<rparr>
      \<lparr>upd_bids = [\<lparr>price = 1, quantity = 0\<rparr>], upd_asks = [],
       first_update_id = 107, upd_last_update_id = 110\<rparr>)
     = \<lparr>bids = [(1, \<lparr>price = 1, quantity = 2\<rparr>)], asks = [], last_update_id = 100\<rparr> \<and>
   fst (update \<lparr>bids = [(1, \<lparr>price = 1, quantity = 2\<rparr>)], asks = [], last_update_id = 100\<rparr>
      \<lparr>upd_bids = [\<lparr>price = 1, quantity = 0\<rparr>], upd_asks = [],
       first_update_id = 90, upd_last_update_id = 99\<rparr>) = Inr False \<and>
   snd (update \<lparr>bids = [(1, \<lparr>price = 1, quantity = 2\<rparr>)], asks = [], last_update_id = 100\<rparr>
      \<lparr>upd_bids = [\<lparr>price = 1, quantity = 0\<rparr>], upd_asks = [],
       first_update_id = 90, upd_last_update_id = 99\<rparr>)
     = \<lparr>bids = [(1, \<lparr>price = 1, quantity = 2\<rparr>)], asks = [], last_update_id = 100\<rparr>"
proof -
  let ?b = "\<lparr>bids = [(1, \<lparr>price = 1, quantity = 2\<rparr>)], asks = [], last_update_id = 100\<rparr>"
  let ?gap = "\<lparr>upd_bids = [\<lparr>price = 1, quantity = 0\<rparr>], upd_asks = [],
       first_update_id = 107, upd_last_update_id = 110\<rparr>"
  let ?old = "\<lparr>upd_bids = [\<lparr>price = 1, quantity = 0\<rparr>], upd_asks = [],
       first_update_id = 90, upd_last_update_id = 99\<rparr>"
  have g: "fst (update ?b ?gap) = Inl (RuntimeWarning 107 101)"
    by (simp add: update_def)
  have o: "fst (update ?b ?old) = Inr False"
    by (simp add: update_def)
  from g have "snd (update ?b ?gap) = ?b"
    by (intro update_no_mutation) simp
  moreover from o have "snd (update ?b ?old) = ?b"
    by (intro update_no_mutation) simp
  ultimately show ?thesis using g o by simp
qed

section \<open>The sorted dictionary keeps its keys sorted\<close>

lemma sd_setitem_member:
  "x \<in> set (sd_setitem k v d) \<Longrightarrow> fst x = k \<or> x \<in> set d"
  by (induction d) (auto split: if_splits)

lemma sorted_sd_setitem:
  "sorted_wrt (<) (map fst d) \<Longrightarrow> sorted_wrt (<) (map fst (sd_setitem k v d))"
proof (induction d)
  case Nil
  show ?case by simp
next
  case (Cons a d)
  obtain k' v' where a: "a = (k', v')" by (cases a)
  from Cons.prems have tl: "sorted_wrt (<) (map fst d)" and hd: "\<forall>x \<in> set d. k' < fst x"
    by (auto simp: a)
  have "\<forall>x \<in> set (sd_setitem k v d). k' < fst x" if "k' < k"
    using hd that sd_setitem_member [of _ k v d] by auto
  with Cons.IH [OF tl] Cons.prems show ?case
    by (auto simp: a)
qed


lemma list_all_sd_setitem:
  "list_all P d \<Longrightarrow> P (k, v) \<Longrightarrow> list_all P (sd_setitem k v d)"
  by (induction d) auto

lemma sorted_sd_pop:
  "sorted_wrt (<) (map fst d) \<Longrightarrow> sorted_wrt (<) (map fst (sd_pop k d))"
  unfolding sd_pop_def by (induction d) auto


lemma list_all_sd_pop: "list_all P d \<Longrightarrow> list_all P (sd_pop k d)"
  unfolding sd_pop_def by (induction d) auto



lemma sd_getitem_resident:
  "sorted_wrt (<) (map fst d) \<Longrightarrow> (k, v) \<in> set d \<Longrightarrow> sd_getitem d k = Inr v"
proof -
  assume s: "sorted_wrt (<) (map fst d)" and m: "(k, v) \<in> set d"
  from s have "distinct (map fst d)"
    using strict_sorted_iff by blast
  with m have "map_of d k = Some v" by simp
  then show ?thesis by (simp add: sd_getitem_def)
qed

lemma sd_getitem_absent: "k \<notin> set (map fst d) \<Longrightarrow> sd_getitem d k = Inl KeyError"
proof -
  assume "k \<notin> set (map fst d)"
  then have "map_of d k = None" by (simp add: map_of_eq_None_iff)
  then show ?thesis by (simp add: sd_getitem_def)
qed

section \<open>Invariants of Levels\<close>

lemma levels_ok_init: "levels_ok Levels_init"
  by (simp add: levels_ok_def Levels_init_def)

lemma levels_ok_merge: "levels_ok L \<Longrightarrow> levels_ok (merge L es)"
proof (induction es arbitrary: L)
  case Nil
  then show ?case by simp
next
  case (Cons e es)
  have "levels_ok (if quantity e = 0 then sd_pop (price e) L else sd_setitem (price e) e L)"
    using Cons.prems
    by (simp add: levels_ok_def sorted_sd_pop sorted_sd_setitem list_all_sd_pop list_all_sd_setitem)
  then show ?case by (simp add: Cons.IH)
qed

lemma levels_ok_foldl: "levels_ok L \<Longrightarrow> levels_ok (foldl merge L bs)"
  by (induction bs arbitrary: L) (simp_all add: levels_ok_merge)

lemma levels_ok_merge_all: "levels_ok (merge_all bs)"
  by (simp add: merge_all_def levels_ok_foldl levels_ok_init)

lemma levels_ok_sorted: "levels_ok L \<Longrightarrow> sorted_wrt (<) (map fst L)"
  by (simp add: levels_ok_def)

lemma levels_ok_price: "levels_ok L \<Longrightarrow> map (\<lambda>kv. price (snd kv)) L = map fst L"
  by (simp add: levels_ok_def list_all_iff)




text \<open>
  Claim C10. In every state of a \<^verbatim>\<open>Levels\<close> object reached by merges from the empty
  container, each entry is stored under the key that is its own price; the keys are
  strictly ascending, and so are the prices of the stored levels, in the same order.
\<close>

theorem key_value_coherence:
  "list_all (\<lambda>kv. price (snd kv) = fst kv) (merge_all bs) \<and>
   map (\<lambda>kv. price (snd kv)) (merge_all bs) = map fst (merge_all bs) \<and>
   sorted_wrt (<) (map fst (merge_all bs)) \<and>
   sorted_wrt (<) (map (\<lambda>kv. price (snd kv)) (merge_all bs))"
proof -
  have ok: "levels_ok (merge_all bs)"
    by (rule levels_ok_merge_all)
  then have 1: "list_all (\<lambda>kv. price (snd kv) = fst kv) (merge_all bs)"
    by (simp add: levels_ok_def list_all_iff)
  from ok have 2: "map (\<lambda>kv. price (snd kv)) (merge_all bs) = map fst (merge_all bs)"
    by (rule levels_ok_price)
  from ok have 3: "sorted_wrt (<) (map fst (merge_all bs))"
    by (rule levels_ok_sorted)
  show ?thesis using 1 3 by (simp add: 2)
qed

section \<open>Ranked slices\<close>

lemma lookup_each_resident:
  "sorted_wrt (<) (map fst L) \<Longrightarrow> set xs \<subseteq> set L \<Longrightarrow>
   lookup_each L (map fst xs) = Inr (map snd xs)"
proof (induction xs)
  case Nil
  show ?case by simp
next
  case (Cons x xs)
  from Cons.prems have "(fst x, snd x) \<in> set L" by simp
  with Cons.prems(1) have "sd_getitem L (fst x) = Inr (snd x)"
    by (rule sd_getitem_resident)
  moreover from Cons have "lookup_each L (map fst xs) = Inr (map snd xs)" by simp
  ultimately show ?case by (simp add: bind_err_def)
qed

lemma sd_islice_items:
  "sd_islice L start stop reverse =
     map fst ((if reverse then rev else id)
       (take (slice_bound (length L) stop (length L) - slice_bound (length L) start 0)
          (drop (slice_bound (length L) start 0) L)))"
  by (simp add: sd_islice_def Let_def take_map drop_map rev_map)

lemma max_slice_items:
  assumes "sorted_wrt (<) (map fst L)"
  shows "max_slice L i reverse =
     Inr (map snd ((if reverse then rev else id)
       (drop (slice_bound (length L) (Some (- i)) 0) L)))"
proof -
  let ?sub = "(if reverse then rev else id) (drop (slice_bound (length L) (Some (- i)) 0) L)"
  have keys: "sd_islice L (Some (- i)) None reverse = map fst ?sub"
    by (simp add: sd_islice_items slice_bound_def)
  have "set ?sub \<subseteq> set L"
    by (auto dest: in_set_dropD)
  with assms have "lookup_each L (map fst ?sub) = Inr (map snd ?sub)"
    by (rule lookup_each_resident)
  then show ?thesis
    by (simp only: max_slice_def keys)
qed

lemma min_slice_items:
  assumes "sorted_wrt (<) (map fst L)"
  shows "min_slice L i reverse =
     Inr (map snd ((if reverse then rev else id)
       (take (slice_bound (length L) (Some i) (length L)) L)))"
proof -
  let ?sub = "(if reverse then rev else id) (take (slice_bound (length L) (Some i) (length L)) L)"
  have keys: "sd_islice L None (Some i) reverse = map fst ?sub"
    by (simp add: sd_islice_items slice_bound_def)
  have "set ?sub \<subseteq> set L"
    by (auto dest: in_set_takeD)
  with assms have "lookup_each L (map fst ?sub) = Inr (map snd ?sub)"
    by (rule lookup_each_resident)
  then show ?thesis
    by (simp only: min_slice_def keys)
qed




section \<open>Invariants of the book\<close>

lemma book_ok_init:
  "levels_ok (bids (BinanceOrderBook_init s)) \<and> levels_ok (asks (BinanceOrderBook_init s))"
  by (simp add: BinanceOrderBook_init_def levels_ok_merge levels_ok_init)

lemma book_ok_update:
  "levels_ok (bids b) \<and> levels_ok (asks b) \<Longrightarrow>
   levels_ok (bids (snd (update b u))) \<and> levels_ok (asks (snd (update b u)))"
  using update_cases [of b u] by (auto simp: levels_ok_merge)

lemma book_ok_update_all:
  "levels_ok (bids b) \<and> levels_ok (asks b) \<Longrightarrow>
   levels_ok (bids (update_all b us)) \<and> levels_ok (asks (update_all b us))"
proof (induction us arbitrary: b)
  case Nil
  then show ?case by (simp add: update_all_def)
next
  case (Cons u us)
  from Cons.prems have "levels_ok (bids (snd (update b u))) \<and> levels_ok (asks (snd (update b u)))"
    by (rule book_ok_update)
  then show ?case
    unfolding update_all_Cons by (rule Cons.IH)
qed

lemma book_ok_after:
  "levels_ok (bids (book_after s us)) \<and> levels_ok (asks (book_after s us))"
  unfolding book_after_def by (rule book_ok_update_all [OF book_ok_init])



text \<open>
  Claim C6. For every book state and every \<open>n\<close> above the number of levels resident on a
  side, \<open>best_bids n\<close> yields all the resident bids (highest first) and \<open>best_asks n\<close>
  all the resident asks (lowest first), as many as are resident, and no error.
\<close>

theorem best_slices_truncate:
  "(int (Levels_len (bids (book_after s us))) < n \<longrightarrow>
      best_bids (book_after s us) n = Inr (rev (map snd (bids (book_after s us)))) \<and>
      (\<exists>ls. best_bids (book_after s us) n = Inr ls \<and>
         length ls = Levels_len (bids (book_after s us)))) \<and>
   (int (Levels_len (asks (book_after s us))) < n \<longrightarrow>
      best_asks (book_after s us) n = Inr (map snd (asks (book_after s us))) \<and>
      (\<exists>ls. best_asks (book_after s us) n = Inr ls \<and>
         length ls = Levels_len (asks (book_after s us))))"
proof -
  let ?b = "book_after s us"
  from book_ok_after [of s us]
  have sb: "sorted_wrt (<) (map fst (bids ?b))" and sa: "sorted_wrt (<) (map fst (asks ?b))"
    by (simp_all add: levels_ok_sorted)
  have bb: "best_bids ?b n = Inr (rev (map snd (bids ?b)))"
    if "int (Levels_len (bids ?b)) < n"
    using that by (simp add: best_bids_def max_slice_items [OF sb] slice_bound_def
        Levels_len_def rev_map)
  have ba: "best_asks ?b n = Inr (map snd (asks ?b))"
    if "int (Levels_len (asks ?b)) < n"
    using that by (simp add: best_asks_def min_slice_items [OF sa] slice_bound_def
        Levels_len_def)
  show ?thesis
    using bb ba by (simp add: Levels_len_def)
qed

theorem best_slices_truncate_witness:
  "Levels_len (bids (book_after
     \<lparr>snap_bids = [\<lparr>price = 10, quantity = 1\<rparr>, \<lparr>price = 9, quantity = 1\<rparr>,
                   \<lparr>price = 8, quantity = 1\<rparr>, \<lparr>price = 7, quantity = 1\<rparr>,
                   \<lparr>price = 6, quantity = 1\<rparr>, \<lparr>price = 5, quantity = 1\<rparr>,
                   \<lparr>price = 4, quantity = 1\<rparr>, \<lparr>price = 3, quantity = 1\<rparr>,
                   \<lparr>price = 2, quantity = 1\<rparr>, \<lparr>price = 1, quantity = 1\<rparr>],
      snap_asks = [\<lparr>price = 11, quantity = 2\<rparr>, \<lparr>price = 12, quantity = 1\<rparr>],
      snap_last_update_id = 100\<rparr> [])) = 10 \<and>
   (\<exists>ls. best_bids (book_after
     \<lparr>snap_bids = [\<lparr>price = 10, quantity = 1\<rparr>, \<lparr>price = 9, quantity = 1\<rparr>,
                   \<lparr>price = 8, quantity = 1\<rparr>, \<lparr>price = 7, quantity = 1\<rparr>,
                   \<lparr>price = 6, quantity = 1\<rparr>, \<lparr>price = 5, quantity = 1\<rparr>,
                   \<lparr>price = 4, quantity = 1\<rparr>, \<lparr>price = 3, quantity = 1\<rparr>,
                   \<lparr>price = 2, quantity = 1\<rparr>, \<lparr>price = 1, quantity = 1\<rparr>],
      snap_asks = [\<lparr>price = 11, quantity = 2\<rparr>, \<lparr>price = 12, quantity = 1\<rparr>],
      snap_last_update_id = 100\<rparr> []) 50 = Inr ls \<and> length ls = 10) \<and>
   (\<exists>ls. best_asks (book_after
     \<lparr>snap_bids = [\<lparr>price = 10, quantity = 1\<rparr>, \<lparr>price = 9, quantity = 1\<rparr>,
                   \<lparr>price = 8, quantity = 1\<rparr>, \<lparr>price = 7, quantity = 1\<rparr>,
                   \<lparr>price = 6, quantity = 1\<rparr>, \<lparr>price = 5, quantity = 1\<rparr>,
                   \<lparr>price = 4, quantity = 1\<rparr>, \<lparr>price = 3, quantity = 1\<rparr>,
                   \<lparr>price = 2, quantity = 1\<rparr>, \<lparr>price = 1, quantity = 1\<rparr>],
      snap_asks = [\<lparr>price = 11, quantity = 2\<rparr>, \<lparr>price = 12, quantity = 1\<rparr>],
      snap_last_update_id = 100\<rparr> []) 50 = Inr ls \<and> length ls = 2)"
proof -
  let ?s = "\<lparr>snap_bids = [\<lparr>price = 10, quantity = 1\<rparr>, \<lparr>price = 9, quantity = 1\<rparr>,
                   \<lparr>price = 8, quantity = 1\<rparr>, \<lparr>price = 7, quantity = 1\<rparr>,
                   \<lparr>price = 6, quantity = 1\<rparr>, \<lparr>price = 5, quantity = 1\<rparr>,
                   \<lparr>price = 4, quantity = 1\<rparr>, \<lparr>price = 3, quantity = 1\<rparr>,
                   \<lparr>price = 2, quantity = 1\<rparr>, \<lparr>price = 1, quantity = 1\<rparr>],
      snap_asks = [\<lparr>price = 11, quantity = 2\<rparr>, \<lparr>price = 12, quantity = 1\<rparr>],
      snap_last_update_id = 100\<rparr>"
  have lb: "Levels_len (bids (book_after ?s [])) = 10"
    by (simp add: book_after_def update_all_def BinanceOrderBook_init_def Levels_init_def
        Levels_len_def)
  have la: "Levels_len (asks (book_after ?s [])) = 2"
    by (simp add: book_after_def update_all_def BinanceOrderBook_init_def Levels_init_def
        Levels_len_def)
  have n: "int (Levels_len (bids (book_after ?s []))) < 50 \<and>
           int (Levels_len (asks (book_after ?s []))) < 50"
    by (simp add: lb la)
  from best_slices_truncate [of ?s "[]" 50] n
  have "(\<exists>ls. best_bids (book_after ?s []) 50 = Inr ls \<and>
            length ls = Levels_len (bids (book_after ?s []))) \<and>
        (\<exists>ls. best_asks (book_after ?s []) 50 = Inr ls \<and>
            length ls = Levels_len (asks (book_after ?s [])))"
    by blast
  then show ?thesis
    by (simp add: lb la)
qed

section \<open>Single-level accessors\<close>










section \<open>Decoding a price level\<close>

lemma from_object_dict:
  "map_of d ''price'' = Some p \<Longrightarrow> map_of d ''qty'' = Some q \<Longrightarrow>
   from_object sf (PyDict d) =
     bind_err (py_float sf p) (\<lambda>pf. bind_err (py_float sf q) (\<lambda>qf.
       Inr \<lparr>price = pf, quantity = qf\<rparr>))"
  by (simp add: from_object_def dict_getitem_def bind_err_def)

lemma from_object_list:
  "from_object sf (PyList [p, q]) =
     bind_err (py_float sf p) (\<lambda>pf. bind_err (py_float sf q) (\<lambda>qf.
       Inr \<lparr>price = pf, quantity = qf\<rparr>))"
  by (simp add: from_object_def list_getitem_def bind_err_def)

text \<open>
  Claim C8. For every \<open>p\<close> and \<open>q\<close>, \<^verbatim>\<open>PriceLevel.from_object\<close> gives the same result on
  the dict \<^verbatim>\<open>{"price": p, "qty": q}\<close> (and on any dict holding these two items) and on the
  list \<^verbatim>\<open>[p, q]\<close>: the level of price \<^verbatim>\<open>float(p)\<close> and quantity \<^verbatim>\<open>float(q)\<close> when both
  conversions succeed. On an input that is neither a dict nor a list it raises
  \<^verbatim>\<open>TypeError\<close>.
\<close>

theorem from_object_shapes:
  "from_object sf (PyDict [(''price'', p), (''qty'', q)]) = from_object sf (PyList [p, q]) \<and>
   (map_of d ''price'' = Some p \<and> map_of d ''qty'' = Some q \<longrightarrow>
      from_object sf (PyDict d) = from_object sf (PyList [p, q])) \<and>
   (py_float sf p = Inr pf \<and> py_float sf q = Inr qf \<longrightarrow>
      from_object sf (PyList [p, q]) = Inr \<lparr>price = pf, quantity = qf\<rparr>) \<and>
   ((\<forall>d'. obj \<noteq> PyDict d') \<and> (\<forall>xs. obj \<noteq> PyList xs) \<longrightarrow>
      from_object sf obj = Inl TypeError)"
proof -
  have 1: "from_object sf (PyDict [(''price'', p), (''qty'', q)]) = from_object sf (PyList [p, q])"
    by (simp add: from_object_dict from_object_list)
  have 2: "from_object sf (PyDict d) = from_object sf (PyList [p, q])"
    if "map_of d ''price'' = Some p \<and> map_of d ''qty'' = Some q"
    using that by (simp add: from_object_dict from_object_list)
  have 3: "from_object sf (PyList [p, q]) = Inr \<lparr>price = pf, quantity = qf\<rparr>"
    if "py_float sf p = Inr pf \<and> py_float sf q = Inr qf"
    using that by (simp add: from_object_list bind_err_def)
  have 4: "from_object sf obj = Inl TypeError"
    if "(\<forall>d'. obj \<noteq> PyDict d') \<and> (\<forall>xs. obj \<noteq> PyList xs)"
    using that by (cases obj) (simp_all add: from_object_def)
  show ?thesis
    using 1 2 3 4 by blast
qed

text \<open>
  The example of the specification, with a reading of the two strings it uses: the dict
  of strings, the list of floats, and a tuple as an input of another shape.
\<close>

theorem from_object_shapes_witness:
  "from_object (\<lambda>s. if s = ''10.5'' then Some 10.5 else if s = ''2.0'' then Some 2 else None)
      (PyDict [(''qty'', PyStr ''2.0''), (''price'', PyStr ''10.5'')])
     = Inr \<lparr>price = 10.5, quantity = 2\<rparr> \<and>
   from_object (\<lambda>s. if s = ''10.5'' then Some 10.5 else if s = ''2.0'' then Some 2 else None)
      (PyList [PyStr ''10.5'', PyStr ''2.0''])
     = Inr \<lparr>price = 10.5, quantity = 2\<rparr> \<and>
   from_object (\<lambda>s. if s = ''10.5'' then Some 10.5 else if s = ''2.0'' then Some 2 else None)
      (PyTuple [PyFloat 10.5, PyFloat 2])
     = Inl TypeError"
proof -
  let ?sf = "\<lambda>s. if s = ''10.5'' then Some (10.5::real) else if s = ''2.0'' then Some 2 else None"
  let ?d = "[(''qty'', PyStr ''2.0''), (''price'', PyStr ''10.5'')]"
  have h1: "map_of ?d ''price'' = Some (PyStr ''10.5'') \<and> map_of ?d ''qty'' = Some (PyStr ''2.0'')"
    by simp
  have h2: "py_float ?sf (PyStr ''10.5'') = Inr 10.5 \<and> py_float ?sf (PyStr ''2.0'') = Inr 2"
    by simp
  have h3: "(\<forall>d'. PyTuple [PyFloat 10.5, PyFloat 2] \<noteq> PyDict d') \<and>
            (\<forall>xs. PyTuple [PyFloat 10.5, PyFloat 2] \<noteq> PyList xs)"
    by simp
  note t = from_object_shapes [of ?sf "PyStr ''10.5''" "PyStr ''2.0''" ?d "10.5" 2
      "PyTuple [PyFloat 10.5, PyFloat 2]"]
  from t h1 have a: "from_object ?sf (PyDict ?d) = from_object ?sf (PyList [PyStr ''10.5'', PyStr ''2.0''])"
    by blast
  from t h2 have b: "from_object ?sf (PyList [PyStr ''10.5'', PyStr ''2.0''])
      = Inr \<lparr>price = 10.5, quantity = 2\<rparr>"
    by blast
  from t h3 have c: "from_object ?sf (PyTuple [PyFloat 10.5, PyFloat 2]) = Inl TypeError"
    by blast
  show ?thesis
    using a b c by simp
qed

section \<open>Merging twice\<close>











end
